theory Spec2Isabelle
  imports Main "HOL-Library.Word"
begin

section \<open>The GM ticket registry of src/game/GMTicketMgr.h\<close>

text \<open>
  The header declares the value class \<open>GMTicket\<close> and the registry \<open>GMTicketMgr\<close>. The
  registry owns its tickets in a \<open>std::map<ObjectGuid, GMTicket>\<close> and keeps a second
  index, a \<open>std::list<GMTicket*>\<close>, whose elements point into the nodes of that map.
  The claims depend on this aliasing, so nodes get addresses and the list holds addresses.
\<close>

subsection \<open>Identifiers and time\<close>

text \<open>
  Modelled from the spec: \<open>ObjectGuid.h\<close> is not part of the sources. The spec describes
  a PlayerId as an opaque identifier, comparable for equality and order, with one
  distinguished empty value. It is taken as its raw 64-bit value, the empty guid being 0;
  a default-constructed guid is empty, and a guid used as a condition
  (\<open>if (ticket.GetPlayerGuid())\<close>) is true exactly when it is not empty.
\<close>

type_synonym ObjectGuid = "64 word"

definition IsEmpty :: "ObjectGuid \<Rightarrow> bool" where
  "IsEmpty guid = (guid = 0)"

text \<open>\<open>time_t\<close>: seconds since the epoch, a 64-bit value. No arithmetic is done on it here.\<close>

type_synonym time_t = "64 word"

subsection \<open>GMTicket\<close>

record GMTicket =
  m_guid :: ObjectGuid
  m_text :: string
  m_responseText :: string
  m_lastUpdate :: time_t

text \<open>
  The constructor \<open>GMTicket() : m_lastUpdate(0)\<close>: the guid and both strings are
  default-constructed, that is, the empty guid and two empty strings.
\<close>

definition GMTicket_new :: GMTicket where
  "GMTicket_new = \<lparr>m_guid = 0, m_text = [], m_responseText = [], m_lastUpdate = 0\<rparr>"

text \<open>
  Modelled from the spec: the body of \<open>GMTicket::Init\<close> is in \<open>GMTicketMgr.cpp\<close>, which is
  not part of the sources; the header has its declaration and comment only
  ("Initializes this GMTicket, much like the constructor would"). The spec: a Ticket is
  "initialized with (owner, text, response, last_update)", and initialization "acts as a
  full reset of all four fields".
\<close>

definition Init :: "GMTicket \<Rightarrow> ObjectGuid \<Rightarrow> string \<Rightarrow> string \<Rightarrow> time_t \<Rightarrow> GMTicket" where
  "Init ticket guid text responsetext update =
     ticket\<lparr>m_guid := guid, m_text := text, m_responseText := responsetext,
            m_lastUpdate := update\<rparr>"

definition GetPlayerGuid :: "GMTicket \<Rightarrow> ObjectGuid" where
  "GetPlayerGuid ticket = m_guid ticket"

text \<open>\<open>bool HasResponse() { return !m_responseText.empty(); }\<close>\<close>

definition HasResponse :: "GMTicket \<Rightarrow> bool" where
  "HasResponse ticket = (\<not> (m_responseText ticket = []))"

subsection \<open>The characters database\<close>

text \<open>
  Modelled from the spec: \<open>GMTicket::DeleteFromDB\<close> and \<open>GMTicket::SaveToDB\<close> are declared
  \<open>const\<close> in the header and defined in \<open>GMTicketMgr.cpp\<close>, which is not part of the
  sources. The spec: \<open>delete_from_store\<close> "removes the row keyed by owner from the durable
  store" and "does not touch in-memory state"; \<open>save\<close> "writes the full current state of
  this Ticket to the durable store as a single row keyed by owner". The database is kept
  as the sequence of statements sent to it; no member of a ticket or of the registry is
  changed by either call.
\<close>

datatype db_statement = DeleteRow ObjectGuid | SaveRow GMTicket

definition DeleteFromDB :: "GMTicket \<Rightarrow> db_statement list \<Rightarrow> db_statement list" where
  "DeleteFromDB ticket db = db @ [DeleteRow (m_guid ticket)]"

definition SaveToDB :: "GMTicket \<Rightarrow> db_statement list \<Rightarrow> db_statement list" where
  "SaveToDB ticket db = db @ [SaveRow ticket]"

subsection \<open>GMTicketMgr\<close>

text \<open>
  A node of \<open>GMTicketMap\<close>: the pair \<open>(first, second)\<close> the map stores, and the address of
  its \<open>second\<close>, which is what \<open>&itr->second\<close> and \<open>&ticket\<close> evaluate to. A
  \<open>std::map\<close> never moves a node, so the address is fixed for the node's lifetime.
\<close>

type_synonym addr = nat

record node =
  first :: ObjectGuid
  second :: GMTicket
  address :: addr

text \<open>
  The registry: its three members, and the characters database its operations write to.
  The map is the list of its nodes; no operation of the header iterates over the map, so
  the order of the nodes in that list is never observed.
\<close>

record GMTicketMgr =
  m_TicketSystemOn :: bool
  m_GMTicketMap :: "node list"
  m_GMTicketListByCreatingOrder :: "addr list"
  CharacterDatabase :: "db_statement list"

text \<open>\<open>GMTicketMgr() : m_TicketSystemOn(true)\<close>, on a database in any state.\<close>

definition GMTicketMgr_new :: "db_statement list \<Rightarrow> GMTicketMgr" where
  "GMTicketMgr_new db =
     \<lparr>m_TicketSystemOn = True, m_GMTicketMap = [], m_GMTicketListByCreatingOrder = [],
      CharacterDatabase = db\<rparr>"

text \<open>\<open>m_GMTicketMap.find(guid)\<close>: the node with that key, or \<open>end()\<close> (\<open>None\<close>).\<close>

definition map_find :: "node list \<Rightarrow> ObjectGuid \<Rightarrow> node option" where
  "map_find nodes guid = find (\<lambda>n. first n = guid) nodes"

text \<open>
  The allocator hands a new node an address that no live node occupies: here the one past
  the largest live address, so the address of an erased node can be handed out again.
\<close>

definition fresh_addr :: "node list \<Rightarrow> addr" where
  "fresh_addr nodes = Suc (foldr max (map address nodes) 0)"

text \<open>
  \<open>m_GMTicketMap[guid]\<close>: the node with that key; when there is none, a node holding a
  default-constructed ticket is inserted first. Returns the map and the node.
\<close>

definition map_index :: "node list \<Rightarrow> ObjectGuid \<Rightarrow> node list \<times> node" where
  "map_index nodes guid =
     (case map_find nodes guid of
        Some n \<Rightarrow> (nodes, n)
      | None \<Rightarrow>
          (let n = \<lparr>first = guid, second = GMTicket_new, address = fresh_addr nodes\<rparr>
           in (nodes @ [n], n)))"

text \<open>Writing a ticket through a reference or pointer to the \<open>second\<close> of a node.\<close>

definition store_ticket :: "addr \<Rightarrow> GMTicket \<Rightarrow> node list \<Rightarrow> node list" where
  "store_ticket a ticket nodes =
     map (\<lambda>n. if address n = a then n\<lparr>second := ticket\<rparr> else n) nodes"

text \<open>\<open>m_GMTicketMap.erase(itr)\<close>: the node the iterator points to leaves the map.\<close>

definition map_erase :: "node \<Rightarrow> node list \<Rightarrow> node list" where
  "map_erase n nodes = filter (\<lambda>m. address m \<noteq> address n) nodes"

text \<open>
  Reading the ticket behind a handle, as the callers of the lookups do; \<open>None\<close> when no
  live node has that address (a dangling pointer).
\<close>

definition deref :: "GMTicketMgr \<Rightarrow> addr \<Rightarrow> GMTicket option" where
  "deref mgr a = map_option second (find (\<lambda>n. address n = a) (m_GMTicketMap mgr))"

text \<open>\<open>GetGMTicket\<close>: \<open>NULL\<close> is \<open>None\<close>.\<close>

definition GetGMTicket :: "GMTicketMgr \<Rightarrow> ObjectGuid \<Rightarrow> addr option" where
  "GetGMTicket mgr guid =
     (case map_find (m_GMTicketMap mgr) guid of
        None \<Rightarrow> None
      | Some n \<Rightarrow> Some (address n))"

definition GetTicketCount :: "GMTicketMgr \<Rightarrow> nat" where
  "GetTicketCount mgr = length (m_GMTicketMap mgr)"

text \<open>
  \<open>GetGMTicketByOrderPos(uint32 pos)\<close>. \<open>std::advance\<close> moves the list iterator \<open>pos\<close>
  steps from \<open>begin()\<close>; moving it beyond \<open>end()\<close> is undefined behaviour, reaching
  \<open>end()\<close> exactly gives \<open>NULL\<close>.
\<close>

datatype error = UndefinedBehaviour

definition GetGMTicketByOrderPos :: "GMTicketMgr \<Rightarrow> 32 word \<Rightarrow> error + addr option" where
  "GetGMTicketByOrderPos mgr pos =
     (if unat pos \<ge> GetTicketCount mgr then Inr None
      else if unat pos > length (m_GMTicketListByCreatingOrder mgr) then Inl UndefinedBehaviour
      else if unat pos = length (m_GMTicketListByCreatingOrder mgr) then Inr None
      else Inr (Some (m_GMTicketListByCreatingOrder mgr ! unat pos)))"

text \<open>\<open>Delete\<close>. \<open>std::list::remove\<close> takes out every element equal to its argument.\<close>

definition Delete :: "GMTicketMgr \<Rightarrow> ObjectGuid \<Rightarrow> GMTicketMgr" where
  "Delete mgr guid =
     (case map_find (m_GMTicketMap mgr) guid of
        None \<Rightarrow> mgr
      | Some itr \<Rightarrow>
          mgr\<lparr>CharacterDatabase := DeleteFromDB (second itr) (CharacterDatabase mgr),
              m_GMTicketListByCreatingOrder :=
                removeAll (address itr) (m_GMTicketListByCreatingOrder mgr),
              m_GMTicketMap := map_erase itr (m_GMTicketMap mgr)\<rparr>)"

text \<open>
  \<open>Create\<close>, with the value of \<open>time(NULL)\<close> as the argument \<open>now\<close>. The argument
  \<open>text\<close> stands for the characters of the C string passed in.
\<close>

definition Create :: "GMTicketMgr \<Rightarrow> ObjectGuid \<Rightarrow> string \<Rightarrow> time_t \<Rightarrow> GMTicketMgr" where
  "Create mgr guid text now =
     (let (nodes, n) = map_index (m_GMTicketMap mgr) guid;
          ticket = second n;
          overwrite = (\<not> IsEmpty (GetPlayerGuid ticket));
          db1 = (if overwrite then DeleteFromDB ticket (CharacterDatabase mgr)
                 else CharacterDatabase mgr);
          order1 = (if overwrite then removeAll (address n) (m_GMTicketListByCreatingOrder mgr)
                    else m_GMTicketListByCreatingOrder mgr);
          ticket' = Init ticket guid text [] now
      in mgr\<lparr>m_GMTicketMap := store_ticket (address n) ticket' nodes,
             CharacterDatabase := SaveToDB ticket' db1,
             m_GMTicketListByCreatingOrder := order1 @ [address n]\<rparr>)"

definition SetAcceptTickets :: "GMTicketMgr \<Rightarrow> bool \<Rightarrow> GMTicketMgr" where
  "SetAcceptTickets mgr accept = mgr\<lparr>m_TicketSystemOn := accept\<rparr>"

definition WillAcceptTickets :: "GMTicketMgr \<Rightarrow> bool" where
  "WillAcceptTickets mgr = m_TicketSystemOn mgr"

subsection \<open>Sequences of operations\<close>





subsection \<open>The invariants of the data model\<close>

text \<open>
  The registry states of the spec's data model: at most one node per owner, every node at
  an address of its own, every ticket stored under its own non-empty owner, and the
  creation-order list holding the address of every node exactly once.
\<close>

definition registry_inv :: "GMTicketMgr \<Rightarrow> bool" where
  "registry_inv mgr =
     (distinct (map first (m_GMTicketMap mgr)) \<and>
      distinct (map address (m_GMTicketMap mgr)) \<and>
      (\<forall>n \<in> set (m_GMTicketMap mgr).
         GetPlayerGuid (second n) = first n \<and> \<not> IsEmpty (first n)) \<and>
      distinct (m_GMTicketListByCreatingOrder mgr) \<and>
      set (m_GMTicketListByCreatingOrder mgr) = set (map address (m_GMTicketMap mgr)))"

text \<open>
  What holds of every state the operations of the header can reach, whatever their
  arguments: as above, but a node stored under the empty guid may have its address in the
  creation-order list more than once (\<open>Create\<close> appends it at every call and never takes
  it out, see its overwrite branch).
\<close>

definition registry_wf :: "GMTicketMgr \<Rightarrow> bool" where
  "registry_wf mgr =
     (distinct (map first (m_GMTicketMap mgr)) \<and>
      distinct (map address (m_GMTicketMap mgr)) \<and>
      (\<forall>n \<in> set (m_GMTicketMap mgr). GetPlayerGuid (second n) = first n) \<and>
      set (m_GMTicketListByCreatingOrder mgr) = set (map address (m_GMTicketMap mgr)) \<and>
      (\<forall>n \<in> set (m_GMTicketMap mgr).
         \<not> IsEmpty (first n) \<longrightarrow> count_list (m_GMTicketListByCreatingOrder mgr) (address n) = 1))"

section \<open>Properties of the containers\<close>

subsection \<open>Finding nodes\<close>

lemma foldr_max_ge: "a \<in> set xs \<Longrightarrow> a \<le> foldr max xs (0::nat)"
  by (induction xs) auto

lemma fresh_addr_gt: "n \<in> set nodes \<Longrightarrow> address n < fresh_addr nodes"
  unfolding fresh_addr_def using foldr_max_ge [of "address n" "map address nodes"] by simp

lemma fresh_addr_notin: "fresh_addr nodes \<notin> address ` set nodes"
  using fresh_addr_gt by fastforce

lemma find_address_fresh: "find (\<lambda>n. address n = fresh_addr nodes) nodes = None"
  using fresh_addr_gt [of _ nodes] by (fastforce simp: find_None_iff)

lemma map_find_None: "(map_find nodes guid = None) = (guid \<notin> first ` set nodes)"
  unfolding map_find_def by (induction nodes) auto

lemma map_find_Some: "map_find nodes guid = Some n \<Longrightarrow> n \<in> set nodes \<and> first n = guid"
  unfolding map_find_def by (induction nodes) (auto split: if_splits)

lemma map_find_distinct:
  "distinct (map first nodes) \<Longrightarrow> n \<in> set nodes \<Longrightarrow> map_find nodes (first n) = Some n"
  unfolding map_find_def by (induction nodes) auto

lemma find_address_distinct:
  "distinct (map address nodes) \<Longrightarrow> n \<in> set nodes \<Longrightarrow>
   find (\<lambda>m. address m = address n) nodes = Some n"
  by (induction nodes) auto

lemma address_eq_distinct:
  "distinct (map address nodes) \<Longrightarrow> n \<in> set nodes \<Longrightarrow> m \<in> set nodes \<Longrightarrow>
   address m = address n \<Longrightarrow> m = n"
  by (meson distinct_map inj_onD)

lemma find_append_None: "find P xs = None \<Longrightarrow> find P (xs @ ys) = find P ys"
  by (induction xs) (auto split: if_splits)

lemma find_filter_implied:
  "(\<And>x. P x \<Longrightarrow> Q x) \<Longrightarrow> find P (filter Q xs) = find P xs"
  by (induction xs) auto

subsection \<open>Writing to a node and erasing one\<close>

lemma map_first_store_ticket: "map first (store_ticket a t nodes) = map first nodes"
  by (induction nodes) (simp_all add: store_ticket_def)

lemma map_address_store_ticket: "map address (store_ticket a t nodes) = map address nodes"
  by (induction nodes) (simp_all add: store_ticket_def)

lemma length_store_ticket: "length (store_ticket a t nodes) = length nodes"
  by (simp add: store_ticket_def)


lemma store_ticket_node:
  "m \<in> set (store_ticket a t nodes) \<Longrightarrow>
   \<exists>k \<in> set nodes. first m = first k \<and> address m = address k \<and>
     second m = (if address k = a then t else second k)"
  by (auto simp: store_ticket_def split: if_splits)

lemma map_find_store_ticket:
  "map_find (store_ticket a t nodes) guid =
     map_option (\<lambda>n. if address n = a then n\<lparr>second := t\<rparr> else n) (map_find nodes guid)"
  by (induction nodes) (simp_all add: map_find_def store_ticket_def)

lemma find_address_store_ticket:
  "find (\<lambda>n. address n = b) (store_ticket a t nodes) =
     map_option (\<lambda>n. if address n = a then n\<lparr>second := t\<rparr> else n)
       (find (\<lambda>n. address n = b) nodes)"
  by (induction nodes) (simp_all add: store_ticket_def)

lemma length_map_erase:
  "distinct (map address nodes) \<Longrightarrow> n \<in> set nodes \<Longrightarrow>
   Suc (length (map_erase n nodes)) = length nodes"
proof (induction nodes)
  case Nil
  then show ?case by simp
next
  case (Cons x xs)
  show ?case
  proof (cases "x = n")
    case True
    have "address n \<notin> address ` set xs"
      using Cons.prems(1) True by simp
    then have "\<forall>m \<in> set xs. address m \<noteq> address n"
      by (metis imageI)
    then have "filter (\<lambda>m. address m \<noteq> address n) xs = xs"
      by (simp add: filter_id_conv)
    then show ?thesis using True by (simp add: map_erase_def)
  next
    case False
    then have "n \<in> set xs" using Cons.prems(2) by simp
    moreover from this have "address x \<noteq> address n"
      using Cons.prems(1) by auto
    ultimately show ?thesis
      using Cons by (simp add: map_erase_def)
  qed
qed

subsection \<open>The two branches of Create, and Delete on a present key\<close>

lemma Create_new:
  assumes "map_find (m_GMTicketMap mgr) guid = None"
  shows "Create mgr guid text now =
     mgr\<lparr>m_GMTicketMap := m_GMTicketMap mgr @
            [\<lparr>first = guid, second = Init GMTicket_new guid text [] now,
              address = fresh_addr (m_GMTicketMap mgr)\<rparr>],
         CharacterDatabase := SaveToDB (Init GMTicket_new guid text [] now) (CharacterDatabase mgr),
         m_GMTicketListByCreatingOrder :=
            m_GMTicketListByCreatingOrder mgr @ [fresh_addr (m_GMTicketMap mgr)]\<rparr>"
proof -
  have "store_ticket (fresh_addr (m_GMTicketMap mgr)) t (m_GMTicketMap mgr) = m_GMTicketMap mgr" for t
    unfolding store_ticket_def by (rule map_idI) (auto dest: fresh_addr_gt)
  then show ?thesis
    using assms
    by (simp add: Create_def map_index_def Let_def store_ticket_def
        GetPlayerGuid_def GMTicket_new_def IsEmpty_def)
qed

lemma Create_existing:
  assumes "map_find (m_GMTicketMap mgr) guid = Some n"
    and "\<not> IsEmpty (GetPlayerGuid (second n))"
  shows "Create mgr guid text now =
     mgr\<lparr>m_GMTicketMap :=
            store_ticket (address n) (Init (second n) guid text [] now) (m_GMTicketMap mgr),
         CharacterDatabase :=
            SaveToDB (Init (second n) guid text [] now)
              (DeleteFromDB (second n) (CharacterDatabase mgr)),
         m_GMTicketListByCreatingOrder :=
            removeAll (address n) (m_GMTicketListByCreatingOrder mgr) @ [address n]\<rparr>"
  using assms by (simp add: Create_def map_index_def Let_def)

lemma Create_existing_empty:
  assumes "map_find (m_GMTicketMap mgr) guid = Some n"
    and "IsEmpty (GetPlayerGuid (second n))"
  shows "Create mgr guid text now =
     mgr\<lparr>m_GMTicketMap :=
            store_ticket (address n) (Init (second n) guid text [] now) (m_GMTicketMap mgr),
         CharacterDatabase :=
            SaveToDB (Init (second n) guid text [] now) (CharacterDatabase mgr),
         m_GMTicketListByCreatingOrder :=
            m_GMTicketListByCreatingOrder mgr @ [address n]\<rparr>"
  using assms by (simp add: Create_def map_index_def Let_def)

lemma Delete_existing:
  assumes "map_find (m_GMTicketMap mgr) guid = Some n"
  shows "Delete mgr guid =
     mgr\<lparr>CharacterDatabase := DeleteFromDB (second n) (CharacterDatabase mgr),
         m_GMTicketListByCreatingOrder :=
            removeAll (address n) (m_GMTicketListByCreatingOrder mgr),
         m_GMTicketMap := map_erase n (m_GMTicketMap mgr)\<rparr>"
  using assms by (simp add: Delete_def)

lemma deref_Create_new:
  assumes "map_find (m_GMTicketMap mgr) guid = None"
  shows "GetGMTicket (Create mgr guid text now) guid = Some (fresh_addr (m_GMTicketMap mgr))"
    and "deref (Create mgr guid text now) (fresh_addr (m_GMTicketMap mgr)) =
           Some (Init GMTicket_new guid text [] now)"
    and "GetTicketCount (Create mgr guid text now) = Suc (GetTicketCount mgr)"
proof -
  have "find (\<lambda>n. first n = guid) (m_GMTicketMap mgr) = None"
    using assms by (simp add: map_find_def)
  then show "GetGMTicket (Create mgr guid text now) guid = Some (fresh_addr (m_GMTicketMap mgr))"
    by (simp add: Create_new [OF assms] GetGMTicket_def map_find_def find_append_None)
  show "deref (Create mgr guid text now) (fresh_addr (m_GMTicketMap mgr)) =
           Some (Init GMTicket_new guid text [] now)"
    by (simp add: Create_new [OF assms] deref_def find_append_None [OF find_address_fresh])
  show "GetTicketCount (Create mgr guid text now) = Suc (GetTicketCount mgr)"
    by (simp add: Create_new [OF assms] GetTicketCount_def)
qed

lemma deref_Delete_other:
  assumes "map_find (m_GMTicketMap mgr) guid = Some n" and "a \<noteq> address n"
  shows "deref (Delete mgr guid) a = deref mgr a"
proof -
  have "find (\<lambda>m. address m = a) (filter (\<lambda>m. address m \<noteq> address n) (m_GMTicketMap mgr)) =
      find (\<lambda>m. address m = a) (m_GMTicketMap mgr)"
    using assms(2) by (intro find_filter_implied) simp
  then show ?thesis
    by (simp add: Delete_existing [OF assms(1)] deref_def map_erase_def)
qed

lemma GetGMTicketByOrderPos_Some:
  "GetGMTicketByOrderPos mgr pos = Inr (Some a) \<Longrightarrow> a \<in> set (m_GMTicketListByCreatingOrder mgr)"
  by (auto simp: GetGMTicketByOrderPos_def split: if_splits)

subsection \<open>The invariants of the data model are kept for non-empty owners\<close>


lemma registry_inv_length:
  assumes "registry_inv mgr"
  shows "length (m_GMTicketListByCreatingOrder mgr) = GetTicketCount mgr"
proof -
  let ?order = "m_GMTicketListByCreatingOrder mgr"
  let ?addrs = "map address (m_GMTicketMap mgr)"
  from assms have d1: "distinct ?order" and d2: "distinct ?addrs" and eq: "set ?order = set ?addrs"
    by (simp_all add: registry_inv_def)
  have "length ?order = card (set ?order)"
    using d1 by (rule distinct_card [symmetric])
  also have "\<dots> = card (set ?addrs)"
    using eq by simp
  also have "\<dots> = length ?addrs"
    using d2 by (rule distinct_card)
  finally show ?thesis by (simp add: GetTicketCount_def)
qed






subsection \<open>What every reachable state satisfies\<close>

text \<open>
  \<open>registry_wf\<close> holds of a new registry and is kept by \<open>Create\<close> and \<open>Delete\<close> with any
  arguments (\<open>SetAcceptTickets\<close> writes the flag, which it does not mention): it holds of
  every state these operations reach.
\<close>

lemma count_list_removeAll:
  "count_list (removeAll a xs) b = (if a = b then 0 else count_list xs b)"
  by (induction xs) auto

lemma count_list_distinct: "distinct xs \<Longrightarrow> x \<in> set xs \<Longrightarrow> count_list xs x = 1"
  by (induction xs) auto

lemma registry_inv_wf: "registry_inv mgr \<Longrightarrow> registry_wf mgr"
  by (auto simp: registry_inv_def registry_wf_def count_list_distinct)

lemma registry_wf_new: "registry_wf (GMTicketMgr_new db)"
  by (simp add: registry_wf_def GMTicketMgr_new_def)

lemma registry_wf_Create_new:
  assumes wf: "registry_wf mgr" and none: "map_find (m_GMTicketMap mgr) guid = None"
  shows "registry_wf (Create mgr guid text now)"
proof -
  let ?a = "fresh_addr (m_GMTicketMap mgr)"
  have key: "guid \<notin> first ` set (m_GMTicketMap mgr)"
    using none by (simp add: map_find_None)
  have fresh: "?a \<notin> address ` set (m_GMTicketMap mgr)"
    by (rule fresh_addr_notin)
  have notin: "?a \<notin> set (m_GMTicketListByCreatingOrder mgr)"
    using wf fresh by (simp add: registry_wf_def)
  then have zero: "count_list (m_GMTicketListByCreatingOrder mgr) ?a = 0"
    by (simp add: count_list_0_iff)
  have neq: "address n \<noteq> ?a \<and> ?a \<noteq> address n" if "n \<in> set (m_GMTicketMap mgr)" for n :: node
    using fresh_addr_gt [OF that] by simp
  show ?thesis
    using wf key fresh zero neq
    by (simp add: Create_new [OF none] registry_wf_def Init_def GetPlayerGuid_def)
qed

lemma registry_wf_Create_existing:
  assumes wf: "registry_wf mgr" and some: "map_find (m_GMTicketMap mgr) guid = Some n"
  shows "registry_wf (Create mgr guid text now)"
proof -
  let ?L = "m_GMTicketListByCreatingOrder mgr"
  let ?t = "Init (second n) guid text [] now"
  let ?nodes = "store_ticket (address n) ?t (m_GMTicketMap mgr)"
  have n: "n \<in> set (m_GMTicketMap mgr)" "first n = guid"
    using map_find_Some [OF some] by simp_all
  have g: "GetPlayerGuid (second n) = guid"
    using wf n by (auto simp: registry_wf_def)
  have d2: "distinct (map address (m_GMTicketMap mgr))"
    using wf by (simp add: registry_wf_def)
  have mem: "address n \<in> set ?L"
    using wf n by (auto simp: registry_wf_def)
  have tick: "GetPlayerGuid (second m) = first m" if "m \<in> set ?nodes" for m
  proof -
    from store_ticket_node [OF that] obtain k :: node where k: "k \<in> set (m_GMTicketMap mgr)"
      "first m = first k" "address m = address k"
      "second m = (if address k = address n then ?t else second k)"
      by auto
    show ?thesis
    proof (cases "address k = address n")
      case True
      then have "k = n"
        using address_eq_distinct [OF d2 n(1) k(1)] by simp
      then show ?thesis
        using k n by (simp add: Init_def GetPlayerGuid_def)
    next
      case False
      then show ?thesis
        using k wf by (simp add: registry_wf_def)
    qed
  qed
  have nodes: "distinct (map first ?nodes)" "distinct (map address ?nodes)"
    "set (map address ?nodes) = set (map address (m_GMTicketMap mgr))"
    using wf by (simp_all add: map_first_store_ticket map_address_store_ticket registry_wf_def)
  show ?thesis
  proof (cases "IsEmpty guid")
    case True
    have cnt: "count_list (?L @ [address n]) (address m) = 1"
      if "m \<in> set ?nodes" "\<not> IsEmpty (first m)" for m
    proof -
      from store_ticket_node [OF that(1)] obtain k :: node where k: "k \<in> set (m_GMTicketMap mgr)"
        "first m = first k" "address m = address k"
        by auto
      have "k \<noteq> n"
        using that(2) k(2) n(2) True by auto
      then have "address k \<noteq> address n"
        using address_eq_distinct [OF d2 n(1) k(1)] by auto
      then show ?thesis
        using wf k that(2) by (simp add: registry_wf_def)
    qed
    have order: "set (?L @ [address n]) = set (map address (m_GMTicketMap mgr))"
      using wf mem by (auto simp: registry_wf_def)
    have "Create mgr guid text now = mgr\<lparr>m_GMTicketMap := ?nodes,
        CharacterDatabase := SaveToDB ?t (CharacterDatabase mgr),
        m_GMTicketListByCreatingOrder := ?L @ [address n]\<rparr>"
      using Create_existing_empty [OF some] True g by simp
    then show ?thesis
      using nodes tick cnt order
      by (simp add: registry_wf_def del: set_append count_list_append)
  next
    case False
    let ?L' = "removeAll (address n) ?L @ [address n]"
    have cnt: "count_list ?L' (address m) = 1"
      if "m \<in> set ?nodes" "\<not> IsEmpty (first m)" for m
    proof -
      from store_ticket_node [OF that(1)] obtain k :: node where k: "k \<in> set (m_GMTicketMap mgr)"
        "first m = first k" "address m = address k"
        by auto
      show ?thesis
        using wf k that(2) by (simp add: registry_wf_def count_list_removeAll)
    qed
    have order: "set ?L' = set (map address (m_GMTicketMap mgr))"
      using wf mem by (auto simp: registry_wf_def)
    have "Create mgr guid text now = mgr\<lparr>m_GMTicketMap := ?nodes,
        CharacterDatabase := SaveToDB ?t (DeleteFromDB (second n) (CharacterDatabase mgr)),
        m_GMTicketListByCreatingOrder := ?L'\<rparr>"
      using Create_existing [OF some] False g by simp
    then show ?thesis
      using nodes tick cnt order
      by (simp add: registry_wf_def del: set_append set_removeAll count_list_append)
  qed
qed

lemma registry_wf_Create: "registry_wf mgr \<Longrightarrow> registry_wf (Create mgr guid text now)"
  by (cases "map_find (m_GMTicketMap mgr) guid")
     (simp_all add: registry_wf_Create_new registry_wf_Create_existing)

lemma registry_wf_Delete:
  assumes wf: "registry_wf mgr"
  shows "registry_wf (Delete mgr guid)"
proof (cases "map_find (m_GMTicketMap mgr) guid")
  case None
  then show ?thesis using wf by (simp add: Delete_def)
next
  case (Some n)
  have n: "n \<in> set (m_GMTicketMap mgr)"
    using map_find_Some [OF Some] by simp
  have "address ` set (m_GMTicketMap mgr) - {address n}
      = address ` {m \<in> set (m_GMTicketMap mgr). address m \<noteq> address n}"
    by auto
  then show ?thesis
    unfolding Delete_existing [OF Some] registry_wf_def map_erase_def
    using wf
    by (simp add: registry_wf_def distinct_map_filter count_list_removeAll)
qed

lemma registry_wf_count_le:
  assumes "registry_wf mgr"
  shows "GetTicketCount mgr \<le> length (m_GMTicketListByCreatingOrder mgr)"
proof -
  let ?order = "m_GMTicketListByCreatingOrder mgr"
  let ?addrs = "map address (m_GMTicketMap mgr)"
  from assms have d2: "distinct ?addrs" and eq: "set ?order = set ?addrs"
    by (simp_all add: registry_wf_def)
  have "length ?addrs = card (set ?addrs)"
    using d2 by (rule distinct_card [symmetric])
  also have "\<dots> = card (set ?order)"
    using eq by simp
  also have "\<dots> \<le> length ?order"
    by (rule card_length)
  finally show ?thesis by (simp add: GetTicketCount_def)
qed

lemma registry_wf_handle:
  assumes wf: "registry_wf mgr" and h: "h \<in> set (m_GMTicketListByCreatingOrder mgr)"
  shows "\<exists>n \<in> set (m_GMTicketMap mgr). address n = h \<and> deref mgr h = Some (second n) \<and>
           GetPlayerGuid (second n) = first n \<and> GetGMTicket mgr (first n) = Some h"
proof -
  from wf h obtain n where n: "n \<in> set (m_GMTicketMap mgr)" "address n = h"
    by (auto simp: registry_wf_def)
  have d1: "distinct (map first (m_GMTicketMap mgr))" and d2: "distinct (map address (m_GMTicketMap mgr))"
    using wf by (simp_all add: registry_wf_def)
  have "deref mgr h = Some (second n)"
    using find_address_distinct [OF d2 n(1)] n(2) by (simp add: deref_def)
  moreover have "GetPlayerGuid (second n) = first n"
    using wf n(1) by (simp add: registry_wf_def)
  moreover have "GetGMTicket mgr (first n) = Some h"
    using map_find_distinct [OF d1 n(1)] n(2) by (simp add: GetGMTicket_def)
  ultimately show ?thesis using n by blast
qed

lemma GetGMTicket_Delete:
  assumes wf: "registry_wf mgr"
  shows "GetGMTicket (Delete mgr guid) guid = None"
proof (cases "map_find (m_GMTicketMap mgr) guid")
  case None
  then show ?thesis by (simp add: Delete_def GetGMTicket_def)
next
  case (Some n)
  have n: "n \<in> set (m_GMTicketMap mgr)" "first n = guid"
    using map_find_Some [OF Some] by simp_all
  have d: "distinct (map first (m_GMTicketMap mgr))"
    using wf by (simp add: registry_wf_def)
  have "m = n" if "m \<in> set (m_GMTicketMap mgr)" "first m = guid" for m
    using d n that by (meson distinct_map inj_onD)
  then have "guid \<notin> first ` set (map_erase n (m_GMTicketMap mgr))"
    by (auto simp: map_erase_def)
  then have "map_find (map_erase n (m_GMTicketMap mgr)) guid = None"
    by (simp add: map_find_None)
  then show ?thesis
    by (simp add: Delete_existing [OF Some] GetGMTicket_def)
qed

lemma Create_empty_existing:
  assumes wf: "registry_wf mgr" and empty: "IsEmpty guid"
    and some: "map_find (m_GMTicketMap mgr) guid = Some n"
  shows "m_GMTicketListByCreatingOrder (Create mgr guid text now) =
           m_GMTicketListByCreatingOrder mgr @ [address n]"
    and "GetGMTicket (Create mgr guid text now) guid = Some (address n)"
    and "GetTicketCount (Create mgr guid text now) = GetTicketCount mgr"
    and "deref (Create mgr guid text now) (address n) = Some (Init (second n) guid text [] now)"
proof -
  have n: "n \<in> set (m_GMTicketMap mgr)" "first n = guid"
    using map_find_Some [OF some] by simp_all
  have "GetPlayerGuid (second n) = guid"
    using wf n by (auto simp: registry_wf_def)
  then have e: "IsEmpty (GetPlayerGuid (second n))"
    using empty by simp
  note eq = Create_existing_empty [OF some e, of "text" now]
  have d2: "distinct (map address (m_GMTicketMap mgr))"
    using wf by (simp add: registry_wf_def)
  show "m_GMTicketListByCreatingOrder (Create mgr guid text now) =
      m_GMTicketListByCreatingOrder mgr @ [address n]"
    by (simp add: eq)
  show "GetGMTicket (Create mgr guid text now) guid = Some (address n)"
    using some by (simp add: eq GetGMTicket_def map_find_store_ticket)
  show "GetTicketCount (Create mgr guid text now) = GetTicketCount mgr"
    by (simp add: eq GetTicketCount_def length_store_ticket)
  show "deref (Create mgr guid text now) (address n) = Some (Init (second n) guid text [] now)"
    using find_address_distinct [OF d2 n(1)]
    by (simp add: eq deref_def find_address_store_ticket)
qed

lemma Create_replaces_existing:
  assumes wf: "registry_wf mgr" and ne: "\<not> IsEmpty A" and h: "GetGMTicket mgr A = Some h"
  shows "GetGMTicket (Create mgr A t now) A = Some h"
    and "GetTicketCount (Create mgr A t now) = GetTicketCount mgr"
    and "\<exists>old. deref mgr h = Some old \<and> deref (Create mgr A t now) h = Some (Init old A t [] now)"
    and "m_GMTicketListByCreatingOrder (Create mgr A t now) =
           removeAll h (m_GMTicketListByCreatingOrder mgr) @ [h]"
proof -
  from h obtain n where some: "map_find (m_GMTicketMap mgr) A = Some n" and a: "address n = h"
    by (auto simp: GetGMTicket_def split: option.splits)
  have n: "n \<in> set (m_GMTicketMap mgr)" "first n = A"
    using map_find_Some [OF some] by simp_all
  have "GetPlayerGuid (second n) = A"
    using wf n by (auto simp: registry_wf_def)
  then have ow: "\<not> IsEmpty (GetPlayerGuid (second n))"
    using ne by simp
  note eq = Create_existing [OF some ow, of t now]
  have d2: "distinct (map address (m_GMTicketMap mgr))"
    using wf by (simp add: registry_wf_def)
  have f: "find (\<lambda>m. address m = h) (m_GMTicketMap mgr) = Some n"
    using find_address_distinct [OF d2 n(1)] a by simp
  show "GetGMTicket (Create mgr A t now) A = Some h"
    using some a by (simp add: eq GetGMTicket_def map_find_store_ticket)
  show "GetTicketCount (Create mgr A t now) = GetTicketCount mgr"
    by (simp add: eq GetTicketCount_def length_store_ticket)
  show "\<exists>old. deref mgr h = Some old \<and> deref (Create mgr A t now) h = Some (Init old A t [] now)"
    using f a by (simp add: eq deref_def find_address_store_ticket)
  show "m_GMTicketListByCreatingOrder (Create mgr A t now) =
      removeAll h (m_GMTicketListByCreatingOrder mgr) @ [h]"
    using a by (simp add: eq)
qed

text \<open>The definitions a concrete registry is evaluated with.\<close>

lemmas registry_defs =
  Create_def Delete_def map_index_def map_find_def map_erase_def fresh_addr_def store_ticket_def
  Init_def GMTicket_new_def GetPlayerGuid_def IsEmpty_def SaveToDB_def DeleteFromDB_def
  GetGMTicket_def deref_def GetTicketCount_def GetGMTicketByOrderPos_def GMTicketMgr_new_def
  registry_inv_def registry_wf_def Let_def

section \<open>The claims\<close>




text \<open>
  C2. For every non-empty owner \<open>A\<close> and texts \<open>t1\<close>, \<open>t2\<close>: after two \<open>Create\<close> calls for \<open>A\<close>
  on a registry whose map and list are empty, the ticket count is 1, \<open>GetGMTicket\<close> for
  \<open>A\<close> returns the handle of the first call, now to a ticket with text \<open>t2\<close>, and the
  second call has taken that handle out of the creation-order list and appended it again:
  it is the last element. With one ticket the tail is position 0, so the move shows only
  next to another ticket: when a ticket for another owner \<open>B\<close> is created between the two
  calls, the list is first the handle of \<open>A\<close>, then that of \<open>B\<close>, before the second call
  for \<open>A\<close>, and first the handle of \<open>B\<close>, then that of \<open>A\<close>, after it. In every reachable
  state in which \<open>A\<close> has a ticket, \<open>Create\<close> for \<open>A\<close> keeps the count and the handle, stores
  the new text, and moves the handle from where it stood to the end of the list, the
  other handles keeping their order.
\<close>

theorem Create_twice_replaces:
  assumes "m_GMTicketMap mgr = []" and "m_GMTicketListByCreatingOrder mgr = []"
    and "\<not> IsEmpty A"
  shows "(\<exists>h ticket.
     GetTicketCount (Create (Create mgr A t1 now1) A t2 now2) = 1 \<and>
     GetGMTicket (Create mgr A t1 now1) A = Some h \<and>
     GetGMTicket (Create (Create mgr A t1 now1) A t2 now2) A = Some h \<and>
     deref (Create (Create mgr A t1 now1) A t2 now2) h = Some ticket \<and>
     GetPlayerGuid ticket = A \<and>
     m_text ticket = t2 \<and>
     m_GMTicketListByCreatingOrder (Create (Create mgr A t1 now1) A t2 now2) =
       removeAll h (m_GMTicketListByCreatingOrder (Create mgr A t1 now1)) @ [h] \<and>
     m_GMTicketListByCreatingOrder (Create (Create mgr A t1 now1) A t2 now2) = [h] \<and>
     last (m_GMTicketListByCreatingOrder (Create (Create mgr A t1 now1) A t2 now2)) = h) \<and>
   (\<forall>B tb nowb. \<not> IsEmpty B \<longrightarrow> B \<noteq> A \<longrightarrow>
      (\<exists>hA hB ticket. hA \<noteq> hB \<and>
         GetGMTicket (Create (Create mgr A t1 now1) B tb nowb) A = Some hA \<and>
         GetGMTicket (Create (Create mgr A t1 now1) B tb nowb) B = Some hB \<and>
         m_GMTicketListByCreatingOrder (Create (Create mgr A t1 now1) B tb nowb) = [hA, hB] \<and>
         m_GMTicketListByCreatingOrder
           (Create (Create (Create mgr A t1 now1) B tb nowb) A t2 now2) = [hB, hA] \<and>
         GetGMTicketByOrderPos
           (Create (Create (Create mgr A t1 now1) B tb nowb) A t2 now2) 0 = Inr (Some hB) \<and>
         GetGMTicketByOrderPos
           (Create (Create (Create mgr A t1 now1) B tb nowb) A t2 now2) 1 = Inr (Some hA) \<and>
         GetTicketCount (Create (Create (Create mgr A t1 now1) B tb nowb) A t2 now2) = 2 \<and>
         GetGMTicket (Create (Create (Create mgr A t1 now1) B tb nowb) A t2 now2) A = Some hA \<and>
         deref (Create (Create (Create mgr A t1 now1) B tb nowb) A t2 now2) hA = Some ticket \<and>
         GetPlayerGuid ticket = A \<and>
         m_text ticket = t2)) \<and>
   (\<forall>mgr0 h. registry_wf mgr0 \<longrightarrow> GetGMTicket mgr0 A = Some h \<longrightarrow>
      GetGMTicket (Create mgr0 A t2 now2) A = Some h \<and>
      GetTicketCount (Create mgr0 A t2 now2) = GetTicketCount mgr0 \<and>
      (\<exists>ticket. deref (Create mgr0 A t2 now2) h = Some ticket \<and>
         GetPlayerGuid ticket = A \<and> m_text ticket = t2) \<and>
      m_GMTicketListByCreatingOrder (Create mgr0 A t2 now2) =
        filter (\<lambda>a. a \<noteq> h) (m_GMTicketListByCreatingOrder mgr0) @ [h] \<and>
      last (m_GMTicketListByCreatingOrder (Create mgr0 A t2 now2)) = h \<and>
      count_list (m_GMTicketListByCreatingOrder (Create mgr0 A t2 now2)) h = 1)"
proof -
  let ?mgr1 = "Create mgr A t1 now1"
  let ?mgr2 = "Create ?mgr1 A t2 now2"
  let ?h = "fresh_addr (m_GMTicketMap mgr)"
  have none: "map_find (m_GMTicketMap mgr) A = None"
    using assms(1) by (simp add: map_find_def)
  have wf: "registry_wf mgr"
    using assms(1,2) by (simp add: registry_wf_def)
  have wf1: "registry_wf ?mgr1"
    using wf by (rule registry_wf_Create)
  have g1: "GetGMTicket ?mgr1 A = Some ?h"
    by (rule deref_Create_new(1) [OF none])
  have c1: "GetTicketCount ?mgr1 = 1"
    using deref_Create_new(3) [OF none, of t1 now1] assms(1) by (simp add: GetTicketCount_def)
  have o1: "m_GMTicketListByCreatingOrder ?mgr1 = [?h]"
    using assms(2) by (simp add: Create_new [OF none])
  note second = Create_replaces_existing [OF wf1 assms(3) g1, of t2 now2]
  from second(3) obtain old where d2: "deref ?mgr2 ?h = Some (Init old A t2 [] now2)"
    by blast
  have o2: "m_GMTicketListByCreatingOrder ?mgr2 = [?h]"
    using second(4) by (simp add: o1)
  have alone: "\<exists>h ticket.
     GetTicketCount ?mgr2 = 1 \<and> GetGMTicket ?mgr1 A = Some h \<and> GetGMTicket ?mgr2 A = Some h \<and>
     deref ?mgr2 h = Some ticket \<and> GetPlayerGuid ticket = A \<and> m_text ticket = t2 \<and>
     m_GMTicketListByCreatingOrder ?mgr2 = removeAll h (m_GMTicketListByCreatingOrder ?mgr1) @ [h] \<and>
     m_GMTicketListByCreatingOrder ?mgr2 = [h] \<and>
     last (m_GMTicketListByCreatingOrder ?mgr2) = h"
    using g1 second(1,2,4) c1 d2 o2
    by (intro exI [of _ ?h] exI [of _ "Init old A t2 [] now2"])
       (simp add: Init_def GetPlayerGuid_def)
  have between: "\<exists>hA hB ticket. hA \<noteq> hB \<and>
         GetGMTicket (Create ?mgr1 B tb nowb) A = Some hA \<and>
         GetGMTicket (Create ?mgr1 B tb nowb) B = Some hB \<and>
         m_GMTicketListByCreatingOrder (Create ?mgr1 B tb nowb) = [hA, hB] \<and>
         m_GMTicketListByCreatingOrder (Create (Create ?mgr1 B tb nowb) A t2 now2) = [hB, hA] \<and>
         GetGMTicketByOrderPos (Create (Create ?mgr1 B tb nowb) A t2 now2) 0 = Inr (Some hB) \<and>
         GetGMTicketByOrderPos (Create (Create ?mgr1 B tb nowb) A t2 now2) 1 = Inr (Some hA) \<and>
         GetTicketCount (Create (Create ?mgr1 B tb nowb) A t2 now2) = 2 \<and>
         GetGMTicket (Create (Create ?mgr1 B tb nowb) A t2 now2) A = Some hA \<and>
         deref (Create (Create ?mgr1 B tb nowb) A t2 now2) hA = Some ticket \<and>
         GetPlayerGuid ticket = A \<and> m_text ticket = t2"
    if "\<not> IsEmpty B" "B \<noteq> A" for B tb nowb
    using assms that by (simp add: registry_defs)
  have general: "GetGMTicket (Create mgr0 A t2 now2) A = Some h \<and>
      GetTicketCount (Create mgr0 A t2 now2) = GetTicketCount mgr0 \<and>
      (\<exists>ticket. deref (Create mgr0 A t2 now2) h = Some ticket \<and>
         GetPlayerGuid ticket = A \<and> m_text ticket = t2) \<and>
      m_GMTicketListByCreatingOrder (Create mgr0 A t2 now2) =
        filter (\<lambda>a. a \<noteq> h) (m_GMTicketListByCreatingOrder mgr0) @ [h] \<and>
      last (m_GMTicketListByCreatingOrder (Create mgr0 A t2 now2)) = h \<and>
      count_list (m_GMTicketListByCreatingOrder (Create mgr0 A t2 now2)) h = 1"
    if wf0: "registry_wf mgr0" and h: "GetGMTicket mgr0 A = Some h" for mgr0 h
  proof -
    note r = Create_replaces_existing [OF wf0 assms(3) h, of t2 now2]
    from r(3) obtain old where d: "deref (Create mgr0 A t2 now2) h = Some (Init old A t2 [] now2)"
      by blast
    have f: "removeAll h (m_GMTicketListByCreatingOrder mgr0) =
        filter (\<lambda>a. a \<noteq> h) (m_GMTicketListByCreatingOrder mgr0)"
      by (simp add: removeAll_filter_not_eq) metis
    have o: "m_GMTicketListByCreatingOrder (Create mgr0 A t2 now2) =
        filter (\<lambda>a. a \<noteq> h) (m_GMTicketListByCreatingOrder mgr0) @ [h]"
      using r(4) f by simp
    have c: "count_list (m_GMTicketListByCreatingOrder (Create mgr0 A t2 now2)) h = 1"
      by (simp add: r(4) count_list_removeAll)
    show ?thesis
      using r(1,2) d o c by (simp add: Init_def GetPlayerGuid_def)
  qed
  show ?thesis
    using alone between general by blast
qed

theorem Create_twice_replaces_witness:
  "m_GMTicketMap (GMTicketMgr_new []) = [] \<and>
   m_GMTicketListByCreatingOrder (GMTicketMgr_new []) = [] \<and> \<not> IsEmpty 42 \<and>
   GetTicketCount (Create (Create (GMTicketMgr_new []) 42 ''help stuck'' 1000) 42 ''still stuck'' 1010) = 1 \<and>
   GetGMTicket (Create (Create (GMTicketMgr_new []) 42 ''help stuck'' 1000) 42 ''still stuck'' 1010) 42 = Some 1 \<and>
   deref (Create (Create (GMTicketMgr_new []) 42 ''help stuck'' 1000) 42 ''still stuck'' 1010) 1 =
     Some \<lparr>m_guid = 42, m_text = ''still stuck'', m_responseText = [], m_lastUpdate = 1010\<rparr> \<and>
   m_GMTicketListByCreatingOrder
     (Create (Create (GMTicketMgr_new []) 42 ''help stuck'' 1000) 42 ''still stuck'' 1010) = [1] \<and>
   \<not> IsEmpty 7 \<and> (7 :: ObjectGuid) \<noteq> 42 \<and>
   m_GMTicketListByCreatingOrder
     (Create (Create (GMTicketMgr_new []) 42 ''help stuck'' 1000) 7 ''lost'' 1005) = [1, 2] \<and>
   registry_wf (Create (Create (GMTicketMgr_new []) 42 ''help stuck'' 1000) 7 ''lost'' 1005) \<and>
   GetGMTicket (Create (Create (GMTicketMgr_new []) 42 ''help stuck'' 1000) 7 ''lost'' 1005) 42 = Some 1 \<and>
   m_GMTicketListByCreatingOrder
     (Create (Create (Create (GMTicketMgr_new []) 42 ''help stuck'' 1000) 7 ''lost'' 1005)
        42 ''still stuck'' 1010) = [2, 1] \<and>
   GetGMTicketByOrderPos
     (Create (Create (Create (GMTicketMgr_new []) 42 ''help stuck'' 1000) 7 ''lost'' 1005)
        42 ''still stuck'' 1010) 1 = Inr (Some 1) \<and>
   GetTicketCount
     (Create (Create (Create (GMTicketMgr_new []) 42 ''help stuck'' 1000) 7 ''lost'' 1005)
        42 ''still stuck'' 1010) = 2"
proof -
  have h1: "m_GMTicketMap (GMTicketMgr_new []) = []"
    and h2: "m_GMTicketListByCreatingOrder (GMTicketMgr_new []) = []"
    by (simp_all add: GMTicketMgr_new_def)
  have h3: "\<not> IsEmpty 42"
    by (simp add: IsEmpty_def)
  have wf: "registry_wf (Create (Create (GMTicketMgr_new []) 42 ''help stuck'' 1000) 7 ''lost'' 1005)"
    by (intro registry_wf_Create registry_wf_new)
  show ?thesis
    using h1 h2 h3 wf
      Create_twice_replaces [OF h1 h2 h3, of "''help stuck''" 1000 "''still stuck''" 1010]
    by (simp add: registry_defs)
qed




text \<open>
  C4. For every registry state holding a ticket for owner \<open>A\<close>, after \<open>Delete\<close> for \<open>A\<close>:
  \<open>GetGMTicket\<close> for \<open>A\<close> returns \<open>NULL\<close>; the handle of the ticket is not in the
  creation-order list, every handle left in the list points to the ticket it pointed
  to before, none of them a ticket of \<open>A\<close>, and no position returns the handle or a ticket
  of \<open>A\<close>; the ticket count has gone down by one; and the list is the old list without
  that handle, the other handles in their old order.
\<close>

theorem Delete_removes_ticket:
  assumes "registry_wf mgr" and "GetGMTicket mgr A = Some h"
  shows "GetGMTicket (Delete mgr A) A = None \<and>
     h \<notin> set (m_GMTicketListByCreatingOrder (Delete mgr A)) \<and>
     (\<forall>a \<in> set (m_GMTicketListByCreatingOrder (Delete mgr A)).
        \<exists>ticket. deref (Delete mgr A) a = Some ticket \<and> deref mgr a = Some ticket \<and>
          GetPlayerGuid ticket \<noteq> A) \<and>
     (\<forall>pos a. GetGMTicketByOrderPos (Delete mgr A) pos = Inr (Some a) \<longrightarrow>
        a \<noteq> h \<and> (\<exists>ticket. deref (Delete mgr A) a = Some ticket \<and> GetPlayerGuid ticket \<noteq> A)) \<and>
     GetTicketCount mgr = GetTicketCount (Delete mgr A) + 1 \<and>
     m_GMTicketListByCreatingOrder (Delete mgr A) =
       filter (\<lambda>a. a \<noteq> h) (m_GMTicketListByCreatingOrder mgr)"
proof -
  let ?mgr' = "Delete mgr A"
  from assms(2) obtain n where some: "map_find (m_GMTicketMap mgr) A = Some n" and h: "address n = h"
    by (auto simp: GetGMTicket_def split: option.splits)
  have n: "n \<in> set (m_GMTicketMap mgr)"
    using map_find_Some [OF some] by simp
  have wf': "registry_wf ?mgr'"
    using assms(1) by (rule registry_wf_Delete)
  have none: "GetGMTicket ?mgr' A = None"
    using assms(1) by (rule GetGMTicket_Delete)
  have order: "m_GMTicketListByCreatingOrder ?mgr' = removeAll h (m_GMTicketListByCreatingOrder mgr)"
    by (simp add: Delete_existing [OF some] h)
  have notin: "h \<notin> set (m_GMTicketListByCreatingOrder ?mgr')"
    by (simp add: order)
  have rest: "\<exists>ticket. deref ?mgr' a = Some ticket \<and> deref mgr a = Some ticket \<and> GetPlayerGuid ticket \<noteq> A"
    if a: "a \<in> set (m_GMTicketListByCreatingOrder ?mgr')" for a
  proof -
    from registry_wf_handle [OF wf' a] obtain m :: node where
      m: "deref ?mgr' a = Some (second m)" "GetPlayerGuid (second m) = first m"
        "GetGMTicket ?mgr' (first m) = Some a"
      by auto
    have "a \<noteq> address n"
      using a notin h by auto
    then have "deref ?mgr' a = deref mgr a"
      by (rule deref_Delete_other [OF some])
    moreover have "first m \<noteq> A"
      using m(3) none by auto
    ultimately show ?thesis using m by metis
  qed
  have d2: "distinct (map address (m_GMTicketMap mgr))"
    using assms(1) by (simp add: registry_wf_def)
  have count: "GetTicketCount mgr = GetTicketCount ?mgr' + 1"
    using length_map_erase [OF d2 n]
    by (simp add: Delete_existing [OF some] GetTicketCount_def)
  have filt: "m_GMTicketListByCreatingOrder ?mgr' =
      filter (\<lambda>a. a \<noteq> h) (m_GMTicketListByCreatingOrder mgr)"
    by (simp add: order removeAll_filter_not_eq) metis
  have byPos: "a \<noteq> h \<and> (\<exists>ticket. deref ?mgr' a = Some ticket \<and> GetPlayerGuid ticket \<noteq> A)"
    if "GetGMTicketByOrderPos ?mgr' pos = Inr (Some a)" for pos a
    using GetGMTicketByOrderPos_Some [OF that] notin rest by blast
  show ?thesis
    using none notin rest byPos count filt by blast
qed

theorem Delete_removes_ticket_witness:
  "registry_wf (Create (Create (Create (GMTicketMgr_new []) 1 ''a'' 1) 2 ''b'' 2) 3 ''c'' 3) \<and>
   GetGMTicket (Create (Create (Create (GMTicketMgr_new []) 1 ''a'' 1) 2 ''b'' 2) 3 ''c'' 3) 2 = Some 2 \<and>
   GetGMTicket (Delete (Create (Create (Create (GMTicketMgr_new []) 1 ''a'' 1) 2 ''b'' 2) 3 ''c'' 3) 2) 2
     = None \<and>
   m_GMTicketListByCreatingOrder
     (Delete (Create (Create (Create (GMTicketMgr_new []) 1 ''a'' 1) 2 ''b'' 2) 3 ''c'' 3) 2) = [1, 3] \<and>
   GetTicketCount (Create (Create (Create (GMTicketMgr_new []) 1 ''a'' 1) 2 ''b'' 2) 3 ''c'' 3) = 3 \<and>
   GetTicketCount
     (Delete (Create (Create (Create (GMTicketMgr_new []) 1 ''a'' 1) 2 ''b'' 2) 3 ''c'' 3) 2) = 2"
proof -
  let ?mgr = "Create (Create (Create (GMTicketMgr_new []) 1 ''a'' 1) 2 ''b'' 2) 3 ''c'' 3"
  have mgr: "?mgr = \<lparr>m_TicketSystemOn = True,
      m_GMTicketMap =
        [\<lparr>first = 1, second = \<lparr>m_guid = 1, m_text = ''a'', m_responseText = [], m_lastUpdate = 1\<rparr>,
          address = 1\<rparr>,
         \<lparr>first = 2, second = \<lparr>m_guid = 2, m_text = ''b'', m_responseText = [], m_lastUpdate = 2\<rparr>,
          address = 2\<rparr>,
         \<lparr>first = 3, second = \<lparr>m_guid = 3, m_text = ''c'', m_responseText = [], m_lastUpdate = 3\<rparr>,
          address = 3\<rparr>],
      m_GMTicketListByCreatingOrder = [1, 2, 3],
      CharacterDatabase =
        [SaveRow \<lparr>m_guid = 1, m_text = ''a'', m_responseText = [], m_lastUpdate = 1\<rparr>,
         SaveRow \<lparr>m_guid = 2, m_text = ''b'', m_responseText = [], m_lastUpdate = 2\<rparr>,
         SaveRow \<lparr>m_guid = 3, m_text = ''c'', m_responseText = [], m_lastUpdate = 3\<rparr>]\<rparr>"
    by (simp add: registry_defs)
  have h1: "registry_wf ?mgr"
    unfolding mgr by (simp add: registry_wf_def GetPlayerGuid_def IsEmpty_def)
  have h2: "GetGMTicket ?mgr 2 = Some 2"
    unfolding mgr by (simp add: GetGMTicket_def map_find_def)
  show ?thesis
    using h1 h2 Delete_removes_ticket [OF h1 h2]
    unfolding mgr by (simp add: registry_defs)
qed

text \<open>
  C5. Starting from a registry whose map and list are empty, after \<open>Create\<close> for three
  distinct non-empty owners \<open>A\<close>, \<open>B\<close>, \<open>C\<close> in this order, \<open>GetGMTicketByOrderPos\<close> at 0,
  1 and 2 returns handles to tickets owned by \<open>A\<close>, \<open>B\<close> and \<open>C\<close>: the handles
  \<open>GetGMTicket\<close> returns for these owners.
\<close>

theorem Create_three_in_order:
  assumes "m_GMTicketMap mgr = []" and "m_GMTicketListByCreatingOrder mgr = []"
    and "\<not> IsEmpty A" and "\<not> IsEmpty B" and "\<not> IsEmpty C"
    and "A \<noteq> B" and "A \<noteq> C" and "B \<noteq> C"
  shows "\<exists>hA hB hC tA tB tC.
     GetGMTicketByOrderPos (Create (Create (Create mgr A ta na) B tb nb) C tc nc) 0 = Inr (Some hA) \<and>
     GetGMTicketByOrderPos (Create (Create (Create mgr A ta na) B tb nb) C tc nc) 1 = Inr (Some hB) \<and>
     GetGMTicketByOrderPos (Create (Create (Create mgr A ta na) B tb nb) C tc nc) 2 = Inr (Some hC) \<and>
     deref (Create (Create (Create mgr A ta na) B tb nb) C tc nc) hA = Some tA \<and>
     deref (Create (Create (Create mgr A ta na) B tb nb) C tc nc) hB = Some tB \<and>
     deref (Create (Create (Create mgr A ta na) B tb nb) C tc nc) hC = Some tC \<and>
     GetPlayerGuid tA = A \<and> GetPlayerGuid tB = B \<and> GetPlayerGuid tC = C \<and>
     GetGMTicket (Create (Create (Create mgr A ta na) B tb nb) C tc nc) A = Some hA \<and>
     GetGMTicket (Create (Create (Create mgr A ta na) B tb nb) C tc nc) B = Some hB \<and>
     GetGMTicket (Create (Create (Create mgr A ta na) B tb nb) C tc nc) C = Some hC"
  using assms by (simp add: registry_defs)

theorem Create_three_in_order_witness:
  "m_GMTicketMap (GMTicketMgr_new []) = [] \<and>
   m_GMTicketListByCreatingOrder (GMTicketMgr_new []) = [] \<and>
   \<not> IsEmpty 1 \<and> \<not> IsEmpty 2 \<and> \<not> IsEmpty 3 \<and>
   GetGMTicketByOrderPos
     (Create (Create (Create (GMTicketMgr_new []) 1 ''a'' 1) 2 ''b'' 2) 3 ''c'' 3) 0 = Inr (Some 1) \<and>
   GetGMTicketByOrderPos
     (Create (Create (Create (GMTicketMgr_new []) 1 ''a'' 1) 2 ''b'' 2) 3 ''c'' 3) 1 = Inr (Some 2) \<and>
   GetGMTicketByOrderPos
     (Create (Create (Create (GMTicketMgr_new []) 1 ''a'' 1) 2 ''b'' 2) 3 ''c'' 3) 2 = Inr (Some 3) \<and>
   map_option GetPlayerGuid
     (deref (Create (Create (Create (GMTicketMgr_new []) 1 ''a'' 1) 2 ''b'' 2) 3 ''c'' 3) 1) = Some 1 \<and>
   map_option GetPlayerGuid
     (deref (Create (Create (Create (GMTicketMgr_new []) 1 ''a'' 1) 2 ''b'' 2) 3 ''c'' 3) 2) = Some 2 \<and>
   map_option GetPlayerGuid
     (deref (Create (Create (Create (GMTicketMgr_new []) 1 ''a'' 1) 2 ''b'' 2) 3 ''c'' 3) 3) = Some 3"
proof -
  have h1: "m_GMTicketMap (GMTicketMgr_new []) = []"
    and h2: "m_GMTicketListByCreatingOrder (GMTicketMgr_new []) = []"
    by (simp_all add: GMTicketMgr_new_def)
  have h3: "\<not> IsEmpty 1" and h4: "\<not> IsEmpty 2" and h5: "\<not> IsEmpty 3"
    by (simp_all add: IsEmpty_def)
  have d: "(1 :: ObjectGuid) \<noteq> 2" "(1 :: ObjectGuid) \<noteq> 3" "(2 :: ObjectGuid) \<noteq> 3"
    by simp_all
  show ?thesis
    using h1 h2 h3 h4 h5
      Create_three_in_order [OF h1 h2 h3 h4 h5 d, of "''a''" 1 "''b''" 2 "''c''" 3]
    by (simp add: registry_defs)
qed

text \<open>
  C6. For every registry state: \<open>GetGMTicket\<close> returns \<open>NULL\<close> if and only if no ticket
  of the registry has that owner, and otherwise the handle of the node stored under that
  owner, behind which is that owner's ticket; \<open>GetGMTicketByOrderPos\<close> returns \<open>NULL\<close> if
  and only if the position is not below the ticket count, and otherwise the element of the
  creation-order list at that offset, counted from 0; it never runs into undefined
  behaviour. (\<open>GetGMTicket\<close> has no failing branch at all.)
\<close>

theorem lookups_total:
  assumes "registry_wf mgr"
  shows "(GetGMTicket mgr guid = None) =
       (\<forall>n \<in> set (m_GMTicketMap mgr). GetPlayerGuid (second n) \<noteq> guid) \<and>
     (\<forall>h. GetGMTicket mgr guid = Some h \<longrightarrow>
        (\<exists>n \<in> set (m_GMTicketMap mgr). first n = guid \<and> address n = h \<and>
           deref mgr h = Some (second n) \<and> GetPlayerGuid (second n) = guid)) \<and>
     (GetGMTicketByOrderPos mgr pos = Inr None) = (GetTicketCount mgr \<le> unat pos) \<and>
     (unat pos < GetTicketCount mgr \<longrightarrow>
        GetGMTicketByOrderPos mgr pos =
          Inr (Some (m_GMTicketListByCreatingOrder mgr ! unat pos))) \<and>
     (\<exists>r. GetGMTicketByOrderPos mgr pos = Inr r)"
proof -
  have keys: "\<forall>n \<in> set (m_GMTicketMap mgr). GetPlayerGuid (second n) = first n"
    using assms by (simp add: registry_wf_def)
  have d2: "distinct (map address (m_GMTicketMap mgr))"
    using assms by (simp add: registry_wf_def)
  have "(GetGMTicket mgr guid = None) = (map_find (m_GMTicketMap mgr) guid = None)"
    by (simp add: GetGMTicket_def split: option.splits)
  then have "(GetGMTicket mgr guid = None) = (guid \<notin> first ` set (m_GMTicketMap mgr))"
    by (simp add: map_find_None)
  then have p1: "(GetGMTicket mgr guid = None) =
      (\<forall>n \<in> set (m_GMTicketMap mgr). GetPlayerGuid (second n) \<noteq> guid)"
    using keys by auto
  have p2: "\<exists>n \<in> set (m_GMTicketMap mgr). first n = guid \<and> address n = h \<and>
      deref mgr h = Some (second n) \<and> GetPlayerGuid (second n) = guid"
    if "GetGMTicket mgr guid = Some h" for h
  proof -
    from that obtain n where some: "map_find (m_GMTicketMap mgr) guid = Some n" and h: "address n = h"
      by (auto simp: GetGMTicket_def split: option.splits)
    have n: "n \<in> set (m_GMTicketMap mgr)" "first n = guid"
      using map_find_Some [OF some] by simp_all
    have "deref mgr h = Some (second n)"
      using find_address_distinct [OF d2 n(1)] h by (simp add: deref_def)
    then show ?thesis using n h keys by auto
  qed
  have len: "GetTicketCount mgr \<le> length (m_GMTicketListByCreatingOrder mgr)"
    using assms by (rule registry_wf_count_le)
  have p3: "(GetGMTicketByOrderPos mgr pos = Inr None) = (GetTicketCount mgr \<le> unat pos)"
    using len by (simp add: GetGMTicketByOrderPos_def)
  have p4: "unat pos < GetTicketCount mgr \<longrightarrow>
      GetGMTicketByOrderPos mgr pos = Inr (Some (m_GMTicketListByCreatingOrder mgr ! unat pos))"
    using len by (simp add: GetGMTicketByOrderPos_def)
  have p5: "\<exists>r. GetGMTicketByOrderPos mgr pos = Inr r"
    using len by (simp add: GetGMTicketByOrderPos_def)
  show ?thesis
    using p1 p2 p3 p4 p5 by blast
qed

theorem lookups_total_witness:
  "registry_wf (Create (Create (GMTicketMgr_new []) 1 ''a'' 1) 2 ''b'' 2) \<and>
   GetGMTicket (Create (Create (GMTicketMgr_new []) 1 ''a'' 1) 2 ''b'' 2) 2 = Some 2 \<and>
   GetGMTicket (Create (Create (GMTicketMgr_new []) 1 ''a'' 1) 2 ''b'' 2) 7 = None \<and>
   GetGMTicketByOrderPos (Create (Create (GMTicketMgr_new []) 1 ''a'' 1) 2 ''b'' 2) 1 = Inr (Some 2) \<and>
   GetGMTicketByOrderPos (Create (Create (GMTicketMgr_new []) 1 ''a'' 1) 2 ''b'' 2) 2 = Inr None \<and>
   GetTicketCount (Create (Create (GMTicketMgr_new []) 1 ''a'' 1) 2 ''b'' 2) = 2"
proof -
  let ?mgr = "Create (Create (GMTicketMgr_new []) 1 ''a'' 1) 2 ''b'' 2"
  have mgr: "?mgr = \<lparr>m_TicketSystemOn = True,
      m_GMTicketMap =
        [\<lparr>first = 1, second = \<lparr>m_guid = 1, m_text = ''a'', m_responseText = [], m_lastUpdate = 1\<rparr>,
          address = 1\<rparr>,
         \<lparr>first = 2, second = \<lparr>m_guid = 2, m_text = ''b'', m_responseText = [], m_lastUpdate = 2\<rparr>,
          address = 2\<rparr>],
      m_GMTicketListByCreatingOrder = [1, 2],
      CharacterDatabase =
        [SaveRow \<lparr>m_guid = 1, m_text = ''a'', m_responseText = [], m_lastUpdate = 1\<rparr>,
         SaveRow \<lparr>m_guid = 2, m_text = ''b'', m_responseText = [], m_lastUpdate = 2\<rparr>]\<rparr>"
    by (simp add: registry_defs)
  have h1: "registry_wf ?mgr"
    unfolding mgr by (simp add: registry_wf_def GetPlayerGuid_def IsEmpty_def)
  show ?thesis
    using h1 lookups_total [OF h1, of 2 1] lookups_total [OF h1, of 7 2]
    unfolding mgr by (simp add: registry_defs)
qed

text \<open>
  C7. \<open>Create\<close> with the empty guid leaves a ticket stored under the empty guid, its
  handle appended to the creation-order list. A second \<open>Create\<close> with the empty guid finds
  that node, and as the guid stored in it is empty the overwrite branch is not taken: the
  handle stays in the list and is appended once more. The list then holds the handle
  twice while the map holds one node for it, so the list is longer than the ticket count
  and the state is not one of the data model: the equality of the two sizes rests on
  \<open>Create\<close> being called with non-empty owners only. From a state of the data model the
  first call inserts the node, and the list ends one longer than the count.
\<close>

theorem Create_empty_guid_twice:
  assumes "registry_wf mgr" and "IsEmpty guid"
  shows "\<exists>h ticket.
     GetGMTicket (Create mgr guid t1 now1) guid = Some h \<and>
     deref (Create mgr guid t1 now1) h = Some ticket \<and>
     IsEmpty (GetPlayerGuid ticket) \<and>
     m_GMTicketListByCreatingOrder (Create mgr guid t1 now1) =
       m_GMTicketListByCreatingOrder mgr @ [h] \<and>
     GetGMTicket (Create (Create mgr guid t1 now1) guid t2 now2) guid = Some h \<and>
     GetTicketCount (Create (Create mgr guid t1 now1) guid t2 now2) =
       GetTicketCount (Create mgr guid t1 now1) \<and>
     m_GMTicketListByCreatingOrder (Create (Create mgr guid t1 now1) guid t2 now2) =
       m_GMTicketListByCreatingOrder mgr @ [h, h] \<and>
     2 \<le> count_list (m_GMTicketListByCreatingOrder (Create (Create mgr guid t1 now1) guid t2 now2)) h \<and>
     GetTicketCount (Create (Create mgr guid t1 now1) guid t2 now2) <
       length (m_GMTicketListByCreatingOrder (Create (Create mgr guid t1 now1) guid t2 now2)) \<and>
     \<not> registry_inv (Create (Create mgr guid t1 now1) guid t2 now2) \<and>
     (registry_inv mgr \<longrightarrow>
        GetTicketCount (Create mgr guid t1 now1) = GetTicketCount mgr + 1 \<and>
        length (m_GMTicketListByCreatingOrder (Create (Create mgr guid t1 now1) guid t2 now2)) =
          GetTicketCount (Create (Create mgr guid t1 now1) guid t2 now2) + 1)"
proof -
  let ?L = "m_GMTicketListByCreatingOrder mgr"
  let ?mgr1 = "Create mgr guid t1 now1"
  let ?mgr2 = "Create ?mgr1 guid t2 now2"
  have first: "\<exists>h ticket. GetGMTicket ?mgr1 guid = Some h \<and> deref ?mgr1 h = Some ticket \<and>
      IsEmpty (GetPlayerGuid ticket) \<and> m_GMTicketListByCreatingOrder ?mgr1 = ?L @ [h]"
  proof (cases "map_find (m_GMTicketMap mgr) guid")
    case None
    show ?thesis
      using deref_Create_new(1,2) [OF None, of t1 now1] assms(2)
      by (simp add: Create_new [OF None] Init_def GetPlayerGuid_def)
  next
    case (Some n)
    show ?thesis
      using Create_empty_existing(1,2,4) [OF assms Some, of t1 now1] assms(2)
      by (simp add: Init_def GetPlayerGuid_def)
  qed
  then obtain h ticket where h: "GetGMTicket ?mgr1 guid = Some h" "deref ?mgr1 h = Some ticket"
    "IsEmpty (GetPlayerGuid ticket)" "m_GMTicketListByCreatingOrder ?mgr1 = ?L @ [h]"
    by blast
  from h(1) obtain n1 where n1: "map_find (m_GMTicketMap ?mgr1) guid = Some n1" "address n1 = h"
    by (auto simp: GetGMTicket_def split: option.splits)
  have wf1: "registry_wf ?mgr1"
    using assms(1) by (rule registry_wf_Create)
  note second = Create_empty_existing(1,2,3) [OF wf1 assms(2) n1(1), of t2 now2]
  have g2: "GetGMTicket ?mgr2 guid = Some h"
    using second(2) n1(2) by simp
  have c2: "GetTicketCount ?mgr2 = GetTicketCount ?mgr1"
    by (rule second(3))
  have o2: "m_GMTicketListByCreatingOrder ?mgr2 = ?L @ [h, h]"
    using second(1) n1(2) h(4) by simp
  have twice: "2 \<le> count_list (m_GMTicketListByCreatingOrder ?mgr2) h"
    by (simp add: o2)
  have "GetTicketCount ?mgr1 \<le> length (m_GMTicketListByCreatingOrder ?mgr1)"
    using wf1 by (rule registry_wf_count_le)
  then have longer: "GetTicketCount ?mgr2 < length (m_GMTicketListByCreatingOrder ?mgr2)"
    by (simp add: c2 o2 h(4))
  have ninv: "\<not> registry_inv ?mgr2"
    by (simp add: registry_inv_def o2)
  have inv: "GetTicketCount ?mgr1 = GetTicketCount mgr + 1 \<and>
      length (m_GMTicketListByCreatingOrder ?mgr2) = GetTicketCount ?mgr2 + 1"
    if "registry_inv mgr"
  proof -
    have none: "map_find (m_GMTicketMap mgr) guid = None"
      using that assms(2) by (auto simp: map_find_None registry_inv_def)
    have "GetTicketCount ?mgr1 = GetTicketCount mgr + 1"
      using deref_Create_new(3) [OF none, of t1 now1] by simp
    then show ?thesis
      using registry_inv_length [OF that] by (simp add: c2 o2)
  qed
  show ?thesis
    using h(1,2,3,4) g2 c2 o2 twice longer ninv inv by blast
qed

theorem Create_empty_guid_twice_witness:
  "registry_wf (GMTicketMgr_new []) \<and> IsEmpty 0 \<and> registry_inv (GMTicketMgr_new []) \<and>
   GetGMTicket (Create (GMTicketMgr_new []) 0 ''a'' 1) 0 = Some 1 \<and>
   m_GMTicketListByCreatingOrder (Create (GMTicketMgr_new []) 0 ''a'' 1) = [1] \<and>
   GetGMTicket (Create (Create (GMTicketMgr_new []) 0 ''a'' 1) 0 ''b'' 2) 0 = Some 1 \<and>
   m_GMTicketListByCreatingOrder (Create (Create (GMTicketMgr_new []) 0 ''a'' 1) 0 ''b'' 2) = [1, 1] \<and>
   GetTicketCount (Create (Create (GMTicketMgr_new []) 0 ''a'' 1) 0 ''b'' 2) = 1 \<and>
   length (m_GMTicketListByCreatingOrder (Create (Create (GMTicketMgr_new []) 0 ''a'' 1) 0 ''b'' 2)) =
     GetTicketCount (Create (Create (GMTicketMgr_new []) 0 ''a'' 1) 0 ''b'' 2) + 1"
proof -
  have h1: "registry_wf (GMTicketMgr_new [])"
    by (simp add: registry_defs)
  have h2: "IsEmpty 0"
    by (simp add: IsEmpty_def)
  have h3: "registry_inv (GMTicketMgr_new [])"
    by (simp add: registry_defs)
  show ?thesis
    using h1 h2 h3 Create_empty_guid_twice [OF h1 h2, of "''a''" 1 "''b''" 2]
    by (simp add: registry_defs)
qed

text \<open>
  C8. For every registry state, owner, text and time, \<open>Create\<close> does the same to the map,
  to the creation-order list and to the database whether the accepting flag is set or
  not: run from two states that differ in the flag only, the results differ in the flag
  only, and \<open>Create\<close> never changes the flag.
\<close>

theorem Create_independent_of_flag:
  "Create (mgr\<lparr>m_TicketSystemOn := b\<rparr>) guid text now =
     (Create mgr guid text now)\<lparr>m_TicketSystemOn := b\<rparr> \<and>
   m_GMTicketMap (Create (mgr\<lparr>m_TicketSystemOn := True\<rparr>) guid text now) =
     m_GMTicketMap (Create (mgr\<lparr>m_TicketSystemOn := False\<rparr>) guid text now) \<and>
   m_GMTicketListByCreatingOrder (Create (mgr\<lparr>m_TicketSystemOn := True\<rparr>) guid text now) =
     m_GMTicketListByCreatingOrder (Create (mgr\<lparr>m_TicketSystemOn := False\<rparr>) guid text now) \<and>
   CharacterDatabase (Create (mgr\<lparr>m_TicketSystemOn := True\<rparr>) guid text now) =
     CharacterDatabase (Create (mgr\<lparr>m_TicketSystemOn := False\<rparr>) guid text now) \<and>
   m_TicketSystemOn (Create mgr guid text now) = m_TicketSystemOn mgr"
  by (simp add: Create_def Let_def split: prod.splits)

text \<open>
  C9. For every registry state and boolean \<open>b\<close>, \<open>SetAcceptTickets b\<close> leaves the map, the
  creation-order list and every stored ticket as they were (so every lookup answers as
  before, and the database is not written to), and \<open>WillAcceptTickets\<close> then returns \<open>b\<close>.
\<close>

theorem SetAcceptTickets_frame:
  "m_GMTicketMap (SetAcceptTickets mgr b) = m_GMTicketMap mgr \<and>
   m_GMTicketListByCreatingOrder (SetAcceptTickets mgr b) = m_GMTicketListByCreatingOrder mgr \<and>
   CharacterDatabase (SetAcceptTickets mgr b) = CharacterDatabase mgr \<and>
   deref (SetAcceptTickets mgr b) h = deref mgr h \<and>
   GetGMTicket (SetAcceptTickets mgr b) guid = GetGMTicket mgr guid \<and>
   GetGMTicketByOrderPos (SetAcceptTickets mgr b) pos = GetGMTicketByOrderPos mgr pos \<and>
   GetTicketCount (SetAcceptTickets mgr b) = GetTicketCount mgr \<and>
   WillAcceptTickets (SetAcceptTickets mgr b) = b"
  by (simp add: SetAcceptTickets_def WillAcceptTickets_def deref_def GetGMTicket_def
      GetGMTicketByOrderPos_def GetTicketCount_def)

text \<open>
  C10. For every ticket, \<open>HasResponse\<close> returns true if and only if the response string of
  the ticket is not empty.
\<close>

theorem HasResponse_iff_response_nonempty:
  "HasResponse ticket = (m_responseText ticket \<noteq> [])"
  by (simp add: HasResponse_def)

end
